theory Spec2Isabelle
  imports Complex_Main "HOL-Library.Word" "HOL-Library.Sublist" "HOL-Library.AList"
    "HOL-Library.Multiset"
begin

section \<open>JavaScript strings\<close>

text \<open>
  A JavaScript string is a sequence of UTF-16 code units; \<open>length\<close>, \<open>indexOf\<close>,
  \<open>substring\<close> and the regular expressions of the page (none has the \<open>u\<close> flag) all
  work on code units. Every Hangul syllable of the source's literals lies in the Basic
  Multilingual Plane and is one code unit. \<open>ascii\<close> writes an ASCII literal.
\<close>

type_synonym code_unit = "16 word"
type_synonym jsstring = "code_unit list"

definition ascii :: "string \<Rightarrow> jsstring" where
  "ascii s = map (\<lambda>c. of_nat (of_char c)) s"

text \<open>The provisional marker, U+005B U+C784 U+C2DC U+005D (``[imsi]'', provisional), and
  the marker U+005B U+CD5C U+C885 U+005D (``[choejong]'', final) that the handler searches.\<close>

definition tempMarker :: jsstring where
  "tempMarker = [0x5B, 0xC784, 0xC2DC, 0x5D]"

definition finalMarker :: jsstring where
  "finalMarker = [0x5B, 0xCD5C, 0xC885, 0x5D]"

text \<open>\<open>s.indexOf(pat)\<close> and \<open>s.lastIndexOf(pat)\<close>; \<open>None\<close> is JavaScript's \<open>-1\<close>.\<close>

fun indexOf :: "'a list \<Rightarrow> 'a list \<Rightarrow> nat option" where
  "indexOf [] pat = (if pat = [] then Some 0 else None)"
| "indexOf (x # xs) pat =
     (if prefix pat (x # xs) then Some 0 else map_option Suc (indexOf xs pat))"

fun lastIndexOf :: "'a list \<Rightarrow> 'a list \<Rightarrow> nat option" where
  "lastIndexOf [] pat = (if pat = [] then Some 0 else None)"
| "lastIndexOf (x # xs) pat =
     (case lastIndexOf xs pat of
        Some i \<Rightarrow> Some (Suc i)
      | None \<Rightarrow> if prefix pat (x # xs) then Some 0 else None)"

text \<open>The number of positions of \<open>s\<close> at which \<open>pat\<close> occurs.\<close>

fun occurrences :: "'a list \<Rightarrow> 'a list \<Rightarrow> nat" where
  "occurrences [] pat = (if pat = [] then 1 else 0)"
| "occurrences (x # xs) pat =
     (if prefix pat (x # xs) then 1 else 0) + occurrences xs pat"


section \<open>The state of the page\<close>

text \<open>
  The \<open>useState\<close> cells of \<open>Home\<close>. \<open>app/page.tsx\<close> has the first eight; the longer
  version of the page adds the keyword list, the reconnect attempt count and the time of
  the last activity (milliseconds, \<open>Date.now()\<close>).
\<close>

datatype environment = quiet | noisy | very_noisy

record page_state =
  isRecording :: bool
  transcription :: jsstring
  summary :: jsstring
  isLoading :: bool
  error :: jsstring
  micLevel :: nat
  isListening :: bool
  environmentStatus :: environment

record app_state = page_state +
  keywords_st :: "jsstring list"
  reconnectAttempts :: nat
  lastActivity :: int

definition initialState :: "int \<Rightarrow> app_state" where
  "initialState t0 =
     \<lparr>isRecording = False, transcription = [], summary = [], isLoading = False,
      error = [], micLevel = 0, isListening = False, environmentStatus = quiet,
      keywords_st = [], reconnectAttempts = 0, lastActivity = t0\<rparr>"


section \<open>The recognition result handler\<close>

text \<open>
  A \<open>SpeechRecognitionResult\<close> holds \<open>isFinal\<close> and its alternatives (of which only
  \<open>transcript\<close> is read). \<open>result[0].transcript\<close> on a result without alternatives reads a
  property of \<open>undefined\<close>: a \<open>TypeError\<close>, which ends the handler where it stands.
\<close>

record alternative =
  transcript :: jsstring

record recognition_result =
  isFinal :: bool
  alternatives :: "alternative list"

datatype js_error = TypeError

text \<open>The \<open>for\<close> loop over \<open>event.results\<close>, on the pair
  \<open>(finalTranscript, interimTranscript)\<close>.\<close>

fun onresult_loop ::
  "recognition_result list \<Rightarrow> jsstring \<times> jsstring \<Rightarrow> js_error + jsstring \<times> jsstring" where
  "onresult_loop [] acc = Inr acc"
| "onresult_loop (r # rs) (finalTranscript, interimTranscript) =
     (case alternatives r of
        [] \<Rightarrow> Inl TypeError
      | a # _ \<Rightarrow>
          if isFinal r
          then onresult_loop rs (finalTranscript @ transcript a @ ascii '' '', interimTranscript)
          else onresult_loop rs (finalTranscript, interimTranscript @ transcript a))"

text \<open>\<open>prev.substring(0, i)\<close> at the index of the provisional marker, \<open>prev\<close> without one.\<close>

definition truncateAtMarker :: "jsstring \<Rightarrow> jsstring" where
  "truncateAtMarker prev =
     (case indexOf prev tempMarker of Some tempIndex \<Rightarrow> take tempIndex prev | None \<Rightarrow> prev)"

text \<open>The two updater functions given to \<open>setTranscription\<close>, and no update when both
  strings are empty (an empty string is falsy).\<close>

definition nextTranscription :: "jsstring \<Rightarrow> jsstring \<Rightarrow> jsstring \<Rightarrow> jsstring" where
  "nextTranscription finalTranscript interimTranscript prev =
     (if interimTranscript \<noteq> [] then
        (let basePrev =
           (case lastIndexOf prev finalMarker of
              Some lastFinalIndex \<Rightarrow> take lastFinalIndex prev
            | None \<Rightarrow> prev)
         in basePrev @ finalTranscript @ tempMarker @ ascii '' '' @ interimTranscript)
      else if finalTranscript \<noteq> [] then truncateAtMarker prev @ finalTranscript
      else prev)"

text \<open>The handler of \<open>app/page.tsx\<close>; the first component is the exception it ends with.\<close>

definition onresult_page ::
  "recognition_result list \<Rightarrow> 'a page_state_scheme \<Rightarrow> js_error option \<times> 'a page_state_scheme" where
  "onresult_page results st =
     (case onresult_loop results ([], []) of
        Inl e \<Rightarrow> (Some e, st)
      | Inr (finalTranscript, interimTranscript) \<Rightarrow>
          (None, st\<lparr>transcription :=
                     nextTranscription finalTranscript interimTranscript (transcription st)\<rparr>))"

text \<open>The handler of the longer version first records the activity (\<open>now\<close> is
  \<open>Date.now()\<close>) and resets the attempt count.\<close>

definition onresult ::
  "int \<Rightarrow> recognition_result list \<Rightarrow> app_state \<Rightarrow> js_error option \<times> app_state" where
  "onresult now results st =
     onresult_page results (st\<lparr>lastActivity := now, reconnectAttempts := 0\<rparr>)"

text \<open>A result with one alternative.\<close>

definition segment :: "bool \<Rightarrow> jsstring \<Rightarrow> recognition_result" where
  "segment final text = \<lparr>isFinal = final, alternatives = [\<lparr>transcript = text\<rparr>]\<rparr>"

text \<open>The words of claim C5: the texts of the segments, each followed by one space.\<close>

definition finalizedText :: "recognition_result list \<Rightarrow> jsstring" where
  "finalizedText results =
     concat (map (\<lambda>r. transcript (hd (alternatives r)) @ ascii '' '') results)"


section \<open>The error and end handlers\<close>

text \<open>
  The handlers are created once, by the effect with the empty dependency list that runs
  after the first render. Inside them the identifiers \<open>isRecording\<close>,
  \<open>reconnectAttempts\<close> and \<open>lastActivity\<close> are the constants of the render in which
  the effect ran, not the current state; the setters act on the current state. The
  values a handler reads are therefore an argument of its own, a \<open>render\<close>.
\<close>

record render =
  isRecording_r :: bool
  reconnectAttempts_r :: nat
  lastActivity_r :: int

definition renderOf :: "app_state \<Rightarrow> render" where
  "renderOf st =
     \<lparr>isRecording_r = isRecording st, reconnectAttempts_r = reconnectAttempts st,
      lastActivity_r = lastActivity st\<rparr>"

text \<open>The render of the mount effect: the initial values of \<open>useState\<close>.\<close>

definition mountRender :: "int \<Rightarrow> render" where
  "mountRender t0 = renderOf (initialState t0)"

record error_event =
  event_error :: jsstring
  event_message :: jsstring

text \<open>
  A callback given to \<open>setTimeout\<close>: its delay in milliseconds, which of the two
  callbacks it is, and the value of \<open>isRecording\<close> its closure holds
  (\<open>recognitionRef.current\<close> is set once and never cleared).
\<close>

datatype timer_callback = RetryStart | RestartStart

record timer =
  delay :: nat
  callback :: timer_callback
  armed :: bool

text \<open>The decimal digits of a number, as a template literal prints it.\<close>

function digits :: "nat \<Rightarrow> jsstring" where
  "digits n = (if n < 10 then [0x30 + of_nat n] else digits (n div 10) @ [0x30 + of_nat (n mod 10)])"
  by pat_completeness auto
termination
  by (relation "measure id") auto

text \<open>The literals of the messages (Korean; their code units).\<close>

definition retryPrefix :: jsstring where
  "retryPrefix = [0xC5F0, 0xACB0, 0x20, 0xBB38, 0xC81C, 0x20, 0xBC1C, 0xC0DD, 0x2C, 0x20,
     0xC7AC, 0xC2DC, 0xB3C4, 0x20, 0xC911, 0x2E, 0x2E, 0x2E, 0x20, 0x28]"

definition errPrefix :: jsstring where
  "errPrefix = [0xC74C, 0xC131, 0x20, 0xC778, 0xC2DD, 0x20, 0xC624, 0xB958, 0x3A, 0x20]"

definition unknownError :: jsstring where
  "unknownError = [0xC54C, 0x20, 0xC218, 0x20, 0xC5C6, 0xB294, 0x20, 0xC624, 0xB958]"

definition stoppedMsg :: jsstring where
  "stoppedMsg = [0xC74C, 0xC131, 0x20, 0xC778, 0xC2DD, 0xC774, 0x20, 0xC911, 0xB2E8, 0xB418,
     0xC5C8, 0xC2B5, 0xB2C8, 0xB2E4, 0x2E, 0x20, 0xB2E4, 0xC2DC, 0x20, 0xC2DC, 0xC791,
     0xD574, 0xC8FC, 0xC138, 0xC694, 0x2E]"

definition isTransient :: "jsstring \<Rightarrow> bool" where
  "isTransient e =
     (e = ascii ''network'' \<or> e = ascii ''audio-capture'' \<or> e = ascii ''aborted'')"

text \<open>The two delay expressions, \<open>Math.min(1000 * Math.pow(2, n), 10000)\<close> and
  \<open>Math.min(500 + n * 200, 2000)\<close>; on a count \<open>n\<close> both are exact in binary64.\<close>

definition errorRetryDelay :: "nat \<Rightarrow> nat" where
  "errorRetryDelay n = min (1000 * 2 ^ n) 10000"

definition endRetryDelay :: "nat \<Rightarrow> nat" where
  "endRetryDelay n = min (500 + n * 200) 2000"

text \<open>\<open>recognition.onerror\<close>: the new state and the timer it schedules, if any.\<close>

definition onerror :: "render \<Rightarrow> error_event \<Rightarrow> app_state \<Rightarrow> app_state \<times> timer option" where
  "onerror r event st =
     (let st1 = (if isTransient (event_error event)
                 then st\<lparr>reconnectAttempts := reconnectAttempts st + 1\<rparr> else st)
      in if isTransient (event_error event) \<and> reconnectAttempts_r r < 5 then
           (st1\<lparr>error := retryPrefix @ digits (reconnectAttempts_r r + 1) @ ascii ''/5)''\<rparr>,
            Some \<lparr>delay = errorRetryDelay (reconnectAttempts_r r), callback = RetryStart,
                  armed = isRecording_r r\<rparr>)
         else
           (let st2 = st1\<lparr>error := errPrefix @ event_error event @ ascii '' - '' @
                        (if event_message event \<noteq> [] then event_message event
                         else unknownError)\<rparr>
            in if event_error event = ascii ''not-allowed''
                  \<or> event_error event = ascii ''service-not-allowed''
               then st2\<lparr>isRecording := False\<rparr> else st2,
            None))"

text \<open>The handler of \<open>app/page.tsx\<close>.\<close>

definition onerror_page :: "error_event \<Rightarrow> 'a page_state_scheme \<Rightarrow> 'a page_state_scheme" where
  "onerror_page event st = st\<lparr>error := errPrefix @ event_error event, isRecording := False\<rparr>"

text \<open>\<open>recognition.onend\<close>; \<open>now\<close> is \<open>Date.now()\<close>.\<close>

definition onend :: "render \<Rightarrow> int \<Rightarrow> app_state \<Rightarrow> app_state \<times> timer option" where
  "onend r now st =
     (let st1 = st\<lparr>isListening := False\<rparr>
      in if isRecording_r r then
           (if now - lastActivity_r r < 30000 \<and> reconnectAttempts_r r < 5
            then (st1, Some \<lparr>delay = endRetryDelay (reconnectAttempts_r r),
                              callback = RestartStart, armed = isRecording_r r\<rparr>)
            else (st1\<lparr>error := stoppedMsg, isRecording := False\<rparr>, None))
         else (st1, None))"

text \<open>
  A timer fires: the callback calls \<open>recognition.start()\<close> when its closure's
  \<open>isRecording\<close> holds. \<open>start_ok\<close> tells whether \<open>start()\<close> returns or throws; the
  second component counts the calls of \<open>start()\<close>.
\<close>

definition fire :: "timer \<Rightarrow> bool \<Rightarrow> app_state \<Rightarrow> app_state \<times> nat" where
  "fire t start_ok st =
     (if armed t then
        (case callback t of
           RetryStart \<Rightarrow> (st, 1)
         | RestartStart \<Rightarrow>
             (if start_ok then st\<lparr>isListening := True\<rparr>
              else st\<lparr>reconnectAttempts := reconnectAttempts st + 1\<rparr>, 1))
      else (st, 0))"

text \<open>
  A recognition session: the state, the timers not yet fired (oldest first) and the
  number of calls of \<open>start()\<close> made by timers. \<open>view\<close> gives the render whose values the
  handlers read; for the handlers the page installs it is constantly \<open>mountRender t0\<close>.
\<close>

datatype event =
  Result int "recognition_result list"
| Error error_event
| End int
| Fire bool

record session =
  app :: app_state
  timers :: "timer list"
  starts :: nat

fun step :: "(app_state \<Rightarrow> render) \<Rightarrow> event \<Rightarrow> session \<Rightarrow> session" where
  "step view (Result now results) s = s\<lparr>app := snd (onresult now results (app s))\<rparr>"
| "step view (Error ev) s =
     (case onerror (view (app s)) ev (app s) of
        (st, t) \<Rightarrow> s\<lparr>app := st, timers := timers s @ (case t of None \<Rightarrow> [] | Some x \<Rightarrow> [x])\<rparr>)"
| "step view (End now) s =
     (case onend (view (app s)) now (app s) of
        (st, t) \<Rightarrow> s\<lparr>app := st, timers := timers s @ (case t of None \<Rightarrow> [] | Some x \<Rightarrow> [x])\<rparr>)"
| "step view (Fire start_ok) s =
     (case timers s of
        [] \<Rightarrow> s
      | t # ts \<Rightarrow>
          (case fire t start_ok (app s) of
             (st, n) \<Rightarrow> s\<lparr>app := st, timers := ts, starts := starts s + n\<rparr>))"

fun run :: "(app_state \<Rightarrow> render) \<Rightarrow> event list \<Rightarrow> session \<Rightarrow> session" where
  "run view [] s = s"
| "run view (e # es) s = run view es (step view e s)"

definition networkError :: error_event where
  "networkError = \<lparr>event_error = ascii ''network'', event_message = []\<rparr>"

text \<open>Six transient errors in a row, and the timer each of them schedules when the
  handler reads the mount render.\<close>

definition sixNetworkErrors :: "event list" where
  "sixNetworkErrors =
     [Error networkError, Error networkError, Error networkError,
      Error networkError, Error networkError, Error networkError]"

definition mountRetryTimer :: timer where
  "mountRetryTimer = \<lparr>delay = 1000, callback = RetryStart, armed = False\<rparr>"

text \<open>A session that is recording, as \<open>startRecording\<close> leaves it.\<close>

definition recordingSession :: "int \<Rightarrow> session" where
  "recordingSession t0 = \<lparr>app = (initialState t0)\<lparr>isRecording := True\<rparr>, timers = [], starts = 0\<rparr>"


section \<open>Clearing\<close>

text \<open>\<open>clearAll\<close> of the longer version (\<open>now\<close> is \<open>Date.now()\<close>) and of \<open>app/page.tsx\<close>.\<close>

definition clearAll :: "int \<Rightarrow> app_state \<Rightarrow> app_state" where
  "clearAll now st =
     st\<lparr>transcription := [], summary := [], keywords_st := [], error := [],
        reconnectAttempts := 0, lastActivity := now\<rparr>"

definition clearAll_page :: "'a page_state_scheme \<Rightarrow> 'a page_state_scheme" where
  "clearAll_page st = st\<lparr>transcription := [], summary := [], error := []\<rparr>"


section \<open>Text processing\<close>

text \<open>
  The character classes of the regular expressions: \<open>\s\<close> (which is also what \<open>trim\<close>
  removes), \<open>\w\<close>, and the range U+AC00 to U+D7A3 of the Hangul syllables.
\<close>

definition isSpace :: "code_unit \<Rightarrow> bool" where
  "isSpace c =
     ((0x09 \<le> c \<and> c \<le> 0x0D) \<or> c = 0x20 \<or> c = 0xA0 \<or> c = 0x1680
      \<or> (0x2000 \<le> c \<and> c \<le> 0x200A) \<or> c = 0x2028 \<or> c = 0x2029 \<or> c = 0x202F
      \<or> c = 0x205F \<or> c = 0x3000 \<or> c = 0xFEFF)"

definition isWordChar :: "code_unit \<Rightarrow> bool" where
  "isWordChar c =
     ((0x30 \<le> c \<and> c \<le> 0x39) \<or> (0x41 \<le> c \<and> c \<le> 0x5A) \<or> c = 0x5F
      \<or> (0x61 \<le> c \<and> c \<le> 0x7A))"

definition isHangul :: "code_unit \<Rightarrow> bool" where
  "isHangul c = (0xAC00 \<le> c \<and> c \<le> 0xD7A3)"

text \<open>
  \<open>s.replace(/\[..\].*?(?=\s|$)/g, "")\<close> with the provisional marker between the
  brackets: every match is the marker and the characters after it up to, not including,
  the next white space (or the end); the lazy \<open>.*?\<close> stops there, and every character
  \<open>.\<close> does not match is white space. The search goes on after the match.
\<close>

function removeProvisional :: "jsstring \<Rightarrow> jsstring" where
  "removeProvisional [] = []"
| "removeProvisional (c # cs) =
     (if prefix tempMarker (c # cs)
      then removeProvisional (dropWhile (\<lambda>x. \<not> isSpace x) (drop (length tempMarker) (c # cs)))
      else c # removeProvisional cs)"
  by pat_completeness auto
termination
  by (relation "measure length")
     (auto simp: tempMarker_def intro!: le_imp_less_Suc le_trans [OF length_dropWhile_le])

text \<open>\<open>s.replace(/\s+/g, " ")\<close>.\<close>

function collapseSpaces :: "jsstring \<Rightarrow> jsstring" where
  "collapseSpaces [] = []"
| "collapseSpaces (c # cs) =
     (if isSpace c then 0x20 # collapseSpaces (dropWhile isSpace cs)
      else c # collapseSpaces cs)"
  by pat_completeness auto
termination
  by (relation "measure length")
     (auto intro!: le_imp_less_Suc length_dropWhile_le)

definition trim :: "jsstring \<Rightarrow> jsstring" where
  "trim s = rev (dropWhile isSpace (rev (dropWhile isSpace s)))"

text \<open>\<open>s.split(/[...]+/)\<close> for a character class \<open>sep\<close>: the fields between the maximal
  runs of separators; the empty string gives one empty field.\<close>

function splitRuns :: "('a \<Rightarrow> bool) \<Rightarrow> 'a list \<Rightarrow> 'a list list" where
  "splitRuns sep [] = [[]]"
| "splitRuns sep (c # cs) =
     (if sep c then [] # splitRuns sep (dropWhile sep cs)
      else (case splitRuns sep cs of
              [] \<Rightarrow> [[c]]
            | f # fs \<Rightarrow> (c # f) # fs))"
  by pat_completeness auto
termination
  by (relation "measure (\<lambda>(sep, s). length s)")
     (auto intro!: le_imp_less_Suc length_dropWhile_le)

text \<open>\<open>s.includes(pat)\<close> and \<open>xs.join(sep)\<close>.\<close>

definition includesStr :: "jsstring \<Rightarrow> jsstring \<Rightarrow> bool" where
  "includesStr s pat = (indexOf s pat \<noteq> None)"

fun join :: "jsstring \<Rightarrow> jsstring list \<Rightarrow> jsstring" where
  "join sep [] = []"
| "join sep [x] = x"
| "join sep (x # y # ys) = x @ sep @ join sep (y # ys)"


section \<open>Keyword extraction\<close>

text \<open>The 52 stop words (Korean; their code units).\<close>

definition stopWords :: "jsstring list" where
  "stopWords =
     [[0xADF8], [0xC774], [0xC800], [0xAC83],
      [0xB4E4], [0xC758], [0xAC00], [0xC744],
      [0xB97C], [0xC5D0], [0xC640], [0xACFC],
      [0xB3C4], [0xB294], [0xC740], [0xC774, 0xB2E4],
      [0xC788, 0xB2E4], [0xC5C6, 0xB2E4], [0xD558, 0xB2E4], [0xB418, 0xB2E4],
      [0xC774, 0xAC83], [0xC800, 0xAC83], [0xADF8, 0xAC83], [0xC5EC, 0xAE30],
      [0xC800, 0xAE30], [0xAC70, 0xAE30], [0xC774, 0xACF3], [0xC800, 0xACF3],
      [0xADF8, 0xACF3], [0xB54C, 0xBB38], [0xB530, 0xB77C], [0xADF8, 0xB798, 0xC11C],
      [0xADF8, 0xB7EC, 0xB098], [0xD558, 0xC9C0, 0xB9CC], [0xADF8, 0xB9AC, 0xACE0], [0xB610, 0xD55C],
      [0xB610, 0xB294], [0xB9CC, 0xC57D], [0xB9CC, 0xC77C], [0xC544, 0xB2C8],
      [0xC54A], [0xBABB], [0xC548], [0xC784, 0xC2DC],
      [0xCD5C, 0xC885], [0xACB0, 0xACFC], [0xB0B4, 0xC6A9], [0xBC1C, 0xD45C],
      [0xC74C, 0xC131], [0xC778, 0xC2DD], [0xC694, 0xC57D], [0xD14D, 0xC2A4, 0xD2B8]]"

definition cleanText :: "jsstring \<Rightarrow> jsstring" where
  "cleanText text =
     trim (collapseSpaces
       (map (\<lambda>c. if isWordChar c \<or> isSpace c \<or> isHangul c then c else 0x20)
          (removeProvisional text)))"

text \<open>
  \<open>wordFreq\<close> is an object literal \<open>{}\<close>, so its prototype is \<open>Object.prototype\<close>. Its
  own properties are kept in the order of their creation. For a word that names a
  method of \<open>Object.prototype\<close>, \<open>wordFreq[word]\<close> is that function the first time: it
  is truthy, \<open>+ 1\<close> concatenates, and the own property that is created holds a string,
  as it does after every later \<open>+ 1\<close>. \<open>__proto__\<close> is an accessor: reading it gives the
  prototype, and assigning it a string does nothing, so no own property is created.
\<close>

datatype freq = Count nat | NotANumber

definition inheritedNames :: "jsstring list" where
  "inheritedNames =
     [ascii ''constructor'', ascii ''hasOwnProperty'', ascii ''isPrototypeOf'',
      ascii ''propertyIsEnumerable'', ascii ''toLocaleString'', ascii ''toString'',
      ascii ''valueOf'', ascii ''__defineGetter__'', ascii ''__defineSetter__'',
      ascii ''__lookupGetter__'', ascii ''__lookupSetter__'']"

text \<open>The body of \<open>words.forEach\<close>.\<close>

definition countWord :: "(jsstring \<times> freq) list \<Rightarrow> jsstring \<Rightarrow> (jsstring \<times> freq) list" where
  "countWord wordFreq word =
     (if 2 \<le> length word \<and> word \<notin> set stopWords then
        (if word = ascii ''__proto__'' then wordFreq
         else AList.update word
                (case map_of wordFreq word of
                   Some (Count n) \<Rightarrow> Count (n + 1)
                 | Some NotANumber \<Rightarrow> NotANumber
                 | None \<Rightarrow> if word \<in> set inheritedNames then NotANumber else Count 1)
                wordFreq)
      else wordFreq)"

text \<open>
  \<open>Object.entries\<close> lists the keys that are array indices (canonical decimal numerals
  below \<open>2^32 - 1\<close>) first, in ascending numeric order, then the other keys in the order
  of their creation.
\<close>

definition isDigit :: "code_unit \<Rightarrow> bool" where
  "isDigit c = (0x30 \<le> c \<and> c \<le> 0x39)"

definition decimalValue :: "jsstring \<Rightarrow> nat" where
  "decimalValue s = foldl (\<lambda>n c. 10 * n + unat (c - 0x30)) 0 s"

definition isArrayIndex :: "jsstring \<Rightarrow> bool" where
  "isArrayIndex key =
     (key \<noteq> [] \<and> list_all isDigit key \<and> (hd key \<noteq> 0x30 \<or> length key = 1)
      \<and> decimalValue key < 4294967295)"

definition entries :: "(jsstring \<times> freq) list \<Rightarrow> (jsstring \<times> freq) list" where
  "entries obj =
     sort_key (\<lambda>e. decimalValue (fst e)) (filter (\<lambda>e. isArrayIndex (fst e)) obj)
     @ filter (\<lambda>e. \<not> isArrayIndex (fst e)) obj"

text \<open>
  \<open>.sort(([, a], [, b]) => b - a)\<close>. On numbers the comparison function is consistent
  and \<open>Array.prototype.sort\<close> is a stable sort by descending count. With a string among
  the values \<open>b - a\<close> is \<open>NaN\<close>, and the order of two or more entries is then left to the
  implementation: it is the parameter \<open>engineSort\<close>.
\<close>

type_synonym engine_sort = "(jsstring \<times> freq) list \<Rightarrow> (jsstring \<times> freq) list"

fun countOf :: "freq \<Rightarrow> nat" where
  "countOf (Count n) = n"
| "countOf NotANumber = 0"

definition sortByCount :: "engine_sort \<Rightarrow> (jsstring \<times> freq) list \<Rightarrow> (jsstring \<times> freq) list" where
  "sortByCount engineSort es =
     (if length es \<le> 1 \<or> list_all (\<lambda>e. snd e \<noteq> NotANumber) es
      then sort_key (\<lambda>e. - int (countOf (snd e))) es
      else engineSort es)"

definition extractKeywords :: "engine_sort \<Rightarrow> jsstring \<Rightarrow> jsstring list" where
  "extractKeywords engineSort text =
     (let words = splitRuns isSpace (cleanText text);
          wordFreq = foldl countWord [] words
      in map fst (take 8 (sortByCount engineSort (entries wordFreq))))"


text \<open>
  The words of claim C3: the tokens of the cleaned text that are kept, and the
  statement that a table holds exactly the counts of the tokens \<open>xs\<close>. A word names a
  member of \<open>Object.prototype\<close> when it is \<open>__proto__\<close> or one of \<open>inheritedNames\<close>.
\<close>

definition keepWord :: "jsstring \<Rightarrow> bool" where
  "keepWord word = (2 \<le> length word \<and> word \<notin> set stopWords)"

definition tokensOf :: "jsstring \<Rightarrow> jsstring list" where
  "tokensOf text = filter keepWord (splitRuns isSpace (cleanText text))"

definition namesPrototypeMember :: "jsstring \<Rightarrow> bool" where
  "namesPrototypeMember word = (word = ascii ''__proto__'' \<or> word \<in> set inheritedNames)"

definition counts :: "(jsstring \<times> freq) list \<Rightarrow> jsstring list \<Rightarrow> bool" where
  "counts wordFreq xs =
     (distinct (map fst wordFreq)
      \<and> map_of wordFreq = (\<lambda>k. if k \<in> set xs then Some (Count (count_list xs k)) else None))"

text \<open>Two inputs with such words; the second ends with a Hangul word (U+D568 U+C218,
  ``hamsu'', function) said twice.\<close>

definition protoText :: jsstring where
  "protoText = ascii ''__proto__ __proto__ ab''"

definition constructorText :: jsstring where
  "constructorText = ascii ''constructor '' @ [0xD568, 0xC218, 0x20, 0xD568, 0xC218]"


section \<open>The extractive summary\<close>

definition isTerminator :: "code_unit \<Rightarrow> bool" where
  "isTerminator c = (c = 0x2E \<or> c = 0x21 \<or> c = 0x3F)"

definition sentencesOf :: "jsstring \<Rightarrow> jsstring list" where
  "sentencesOf text = filter (\<lambda>s. 10 < length (trim s)) (splitRuns isTerminator text)"

text \<open>
  \<open>Math.max(2, Math.ceil(n * 0.4))\<close>. The binary64 product \<open>n * 0.4\<close> is the integer
  \<open>2 * n / 5\<close> when 5 divides \<open>n\<close> (the error of the constant is below half a unit in the
  last place of the product) and lies strictly between two integers otherwise, so the ceiling
  is that of the exact product.
\<close>

definition selectionSize :: "nat \<Rightarrow> nat" where
  "selectionSize n = max 2 ((2 * n + 4) div 5)"

text \<open>
  The score \<open>keywordCount + sentence.length / 100\<close> is a binary64 number; its rounding
  is not modelled. \<open>score k len\<close> stands for that number, as a real; the summary is
  defined for every such function, and \<open>exactScore\<close> is the one without rounding. The
  comparison function \<open>b.score - a.score\<close> has the sign of the comparison of the two
  numbers, so the sort is the stable sort by descending score.
\<close>

definition scoredSentences ::
  "engine_sort \<Rightarrow> (nat \<Rightarrow> nat \<Rightarrow> real) \<Rightarrow> jsstring \<Rightarrow> (jsstring \<times> real) list" where
  "scoredSentences engineSort score text =
     (let keywords = extractKeywords engineSort text
      in map (\<lambda>sentence.
                (trim sentence,
                 score (length (filter (\<lambda>keyword. includesStr sentence keyword) keywords))
                       (length sentence)))
           (sentencesOf text))"

definition createExtractiveSummary ::
  "engine_sort \<Rightarrow> (nat \<Rightarrow> nat \<Rightarrow> real) \<Rightarrow> jsstring \<Rightarrow> jsstring" where
  "createExtractiveSummary engineSort score text =
     (let sentences = sentencesOf text
      in if length sentences \<le> 3 then text
         else
           (let topSentences =
                  map fst (take (selectionSize (length sentences))
                    (sort_key (\<lambda>item. - snd item) (scoredSentences engineSort score text)))
            in join (ascii ''. '') topSentences @ ascii ''.''))"

definition exactScore :: "nat \<Rightarrow> nat \<Rightarrow> real" where
  "exactScore keywordCount len = real keywordCount + real len / 100"


section \<open>Summarizing\<close>

text \<open>
  The summarization pipeline is an external service: what a call of it does is a
  function from its input text to an outcome. It returns a list whose first element
  holds \<open>summary_text\<close>, or throws, or returns something whose first element is
  \<open>undefined\<close>, so that reading \<open>summary_text\<close> throws. \<open>summarizerRef.current\<close> is \<open>None\<close>
  until the pipeline has loaded. The generation options are not modelled.
\<close>

datatype model_outcome = SummaryText jsstring | ModelThrows | MalformedResult

type_synonym summarizer = "jsstring \<Rightarrow> model_outcome"

definition noTextMsg :: jsstring where
  "noTextMsg = [0xC694, 0xC57D, 0xD560, 0x20, 0xD14D, 0xC2A4, 0xD2B8, 0xAC00, 0x20, 0xC5C6,
     0xC2B5, 0xB2C8, 0xB2E4, 0x2E]"

definition notLoadedMsg :: jsstring where
  "notLoadedMsg = [0xC694, 0xC57D, 0x20, 0xBAA8, 0xB378, 0xC774, 0x20, 0xC544, 0xC9C1, 0x20,
     0xB85C, 0xB529, 0xB418, 0xC9C0, 0x20, 0xC54A, 0xC558, 0xC2B5, 0xB2C8, 0xB2E4, 0x2E]"

definition failedMsg :: jsstring where
  "failedMsg = [0xD14D, 0xC2A4, 0xD2B8, 0x20, 0xC694, 0xC57D, 0xC5D0, 0x20, 0xC2E4, 0xD328,
     0xD588, 0xC2B5, 0xB2C8, 0xB2E4, 0x2E]"

definition processedText :: "jsstring \<Rightarrow> jsstring" where
  "processedText text = trim (collapseSpaces (removeProvisional text))"

definition textToSummarize :: "jsstring \<Rightarrow> jsstring" where
  "textToSummarize text =
     (if 1000 < length text then take 1000 text @ ascii ''...'' else text)"

text \<open>\<open>summarizeText\<close> of the longer version: the inputs given to the pipeline, in order,
  and the new state.\<close>

definition summarizeText ::
  "engine_sort \<Rightarrow> (nat \<Rightarrow> nat \<Rightarrow> real) \<Rightarrow> summarizer option \<Rightarrow> app_state
     \<Rightarrow> jsstring list \<times> app_state" where
  "summarizeText engineSort score summarizerRef st =
     (if trim (transcription st) = [] then ([], st\<lparr>error := noTextMsg\<rparr>)
      else
        (case summarizerRef of
           None \<Rightarrow> ([], st\<lparr>error := notLoadedMsg\<rparr>)
         | Some summarizer \<Rightarrow>
             (let processed = processedText (transcription st);
                  st1 = st\<lparr>isLoading := True, error := [],
                           keywords_st := extractKeywords engineSort processed\<rparr>;
                  input = textToSummarize processed
              in (case summarizer input of
                    SummaryText summary_text \<Rightarrow>
                      ([input], st1\<lparr>summary := summary_text, isLoading := False\<rparr>)
                  | ModelThrows \<Rightarrow>
                      ([input],
                       st1\<lparr>summary := createExtractiveSummary engineSort score processed,
                            isLoading := False\<rparr>)
                  | MalformedResult \<Rightarrow>
                      ([input], st1\<lparr>error := failedMsg, isLoading := False\<rparr>)))))"

text \<open>\<open>summarizeText\<close> of \<open>app/page.tsx\<close>: no preprocessing, no keywords, no fallback.\<close>

definition summarizeText_page ::
  "summarizer option \<Rightarrow> 'a page_state_scheme \<Rightarrow> jsstring list \<times> 'a page_state_scheme" where
  "summarizeText_page summarizerRef st =
     (if trim (transcription st) = [] then ([], st\<lparr>error := noTextMsg\<rparr>)
      else
        (case summarizerRef of
           None \<Rightarrow> ([], st\<lparr>error := notLoadedMsg\<rparr>)
         | Some summarizer \<Rightarrow>
             (let st1 = st\<lparr>isLoading := True, error := []\<rparr>;
                  input = textToSummarize (transcription st)
              in (case summarizer input of
                    SummaryText summary_text \<Rightarrow>
                      ([input], st1\<lparr>summary := summary_text, isLoading := False\<rparr>)
                  | ModelThrows \<Rightarrow> ([input], st1\<lparr>error := failedMsg, isLoading := False\<rparr>)
                  | MalformedResult \<Rightarrow>
                      ([input], st1\<lparr>error := failedMsg, isLoading := False\<rparr>)))))"


section \<open>Example inputs\<close>

text \<open>A text of four sentences, and two states whose transcripts are blank and not
  blank.\<close>

definition fourSentences :: jsstring where
  "fourSentences =
     ascii ''aaaaaaaaaaaa bb. cccccccccccc bb! dddddddddddddd? eeeeeeeeeeee bb bb''"

definition blankState :: app_state where
  "blankState = (initialState 0)\<lparr>transcription := ascii ''  ''\<rparr>"

definition spacedState :: app_state where
  "spacedState = (initialState 0)\<lparr>transcription := ascii ''a  b''\<rparr>"


definition failingModel :: summarizer where
  "failingModel input = ModelThrows"


section \<open>Properties of the result handler\<close>

text \<open>\<open>indexOf\<close> finds the first occurrence, and none when there is none.\<close>

lemma indexOf_None_iff: "indexOf s pat = None \<longleftrightarrow> \<not> sublist pat s"
  by (induction s) (auto simp: sublist_Cons_right)

lemma indexOf_first:
  "indexOf s pat = Some i \<Longrightarrow> prefix pat (drop i s) \<and> (\<forall>j<i. \<not> prefix pat (drop j s))"
proof (induction s arbitrary: i)
  case Nil
  then show ?case by (simp split: if_splits)
next
  case (Cons x xs)
  show ?case
  proof (cases "prefix pat (x # xs)")
    case True
    with Cons.prems show ?thesis by simp
  next
    case False
    with Cons.prems obtain i' where i': "indexOf xs pat = Some i'" "i = Suc i'" by auto
    from Cons.IH [OF i'(1)] have a: "prefix pat (drop i' xs)"
      and b: "\<forall>j<i'. \<not> prefix pat (drop j xs)" by simp_all
    have "\<forall>j<Suc i'. \<not> prefix pat (drop j (x # xs))"
    proof (intro allI impI)
      fix j assume "j < Suc i'"
      with False b show "\<not> prefix pat (drop j (x # xs))" by (cases j) simp_all
    qed
    with a i'(2) show ?thesis by simp
  qed
qed

lemma truncateAtMarker_first:
  "(indexOf prev tempMarker = Some i \<longrightarrow>
      truncateAtMarker prev = take i prev \<and> prefix tempMarker (drop i prev)
      \<and> (\<forall>j<i. \<not> prefix tempMarker (drop j prev)))
   \<and> (\<not> sublist tempMarker prev \<longrightarrow> truncateAtMarker prev = prev)"
  using indexOf_first [of prev tempMarker i] indexOf_None_iff [of prev tempMarker]
  by (auto simp: truncateAtMarker_def)

lemma onresult_loop_all_final:
  "list_all isFinal results \<Longrightarrow> list_all (\<lambda>r. alternatives r \<noteq> []) results \<Longrightarrow>
   onresult_loop results (f, i) = Inr (f @ finalizedText results, i)"
proof (induction results arbitrary: f)
  case Nil
  then show ?case by (simp add: finalizedText_def)
next
  case (Cons r rs)
  then obtain a as where alts: "alternatives r = a # as"
    by (cases "alternatives r") auto
  from Cons.prems have "isFinal r" "list_all isFinal rs"
    "list_all (\<lambda>r. alternatives r \<noteq> []) rs" by simp_all
  with Cons.IH [of "f @ transcript a @ ascii '' ''"] alts show ?case
    by (simp add: finalizedText_def)
qed

lemma finalizedText_nonempty:
  "results \<noteq> [] \<Longrightarrow> finalizedText results \<noteq> []"
  by (cases results) (simp_all add: finalizedText_def ascii_def)

text \<open>
  Claim C1 (at most one provisional marker after every result event, starting from the
  empty transcript). The branch for interim results cuts the old transcript at the last
  \<open>finalMarker\<close>, which no code path ever writes, so the old provisional segment stays:
  two events with one interim segment each leave two markers, in both versions of the
  handler.
\<close>

theorem onresult_two_interim_events_two_markers:
  "transcription (snd (onresult 2 [segment False (ascii ''ab'')]
       (snd (onresult 1 [segment False (ascii ''a'')] (initialState 0)))))
     = tempMarker @ ascii '' a'' @ tempMarker @ ascii '' ab''
   \<and> occurrences (tempMarker @ ascii '' a'' @ tempMarker @ ascii '' ab'') tempMarker = 2
   \<and> transcription (snd (onresult_page [segment False (ascii ''ab'')]
       (snd (onresult_page [segment False (ascii ''a'')] (initialState 0)))))
     = tempMarker @ ascii '' a'' @ tempMarker @ ascii '' ab''"
  by (simp add: onresult_def onresult_page_def nextTranscription_def segment_def
      initialState_def tempMarker_def finalMarker_def ascii_def)

text \<open>
  Claim C5, as stated, at an event without segments (all of its segments are final):
  the handler leaves a transcript that holds a marker as it is, where the claim cuts it.
\<close>

theorem onresult_empty_event_keeps_marker:
  "list_all isFinal []
   \<and> transcription (snd (onresult 1 []
        ((initialState 0)\<lparr>transcription := tempMarker @ ascii '' a''\<rparr>)))
       = tempMarker @ ascii '' a''
   \<and> truncateAtMarker (tempMarker @ ascii '' a'') @ finalizedText [] = []
   \<and> transcription (snd (onresult 1 []
        ((initialState 0)\<lparr>transcription := tempMarker @ ascii '' a''\<rparr>)))
       \<noteq> truncateAtMarker (tempMarker @ ascii '' a'') @ finalizedText []
   \<and> transcription (snd (onresult_page []
        ((initialState 0)\<lparr>transcription := tempMarker @ ascii '' a''\<rparr>)))
       \<noteq> truncateAtMarker (tempMarker @ ascii '' a'') @ finalizedText []"
  by (simp add: onresult_def onresult_page_def nextTranscription_def initialState_def
      truncateAtMarker_def finalizedText_def tempMarker_def ascii_def)

text \<open>
  Claim C5, amended: for every result event with at least one segment, all segments
  final and each with a first alternative, the new transcript is the old one cut at the
  first provisional marker (whole when there is none) followed by the segments' texts,
  each followed by one space; this holds for both versions of the handler, and an event
  without segments leaves the transcript as it is.
\<close>

theorem onresult_all_final:
  assumes "results \<noteq> []"
    and "list_all isFinal results"
    and "list_all (\<lambda>r. alternatives r \<noteq> []) results"
  shows "transcription (snd (onresult now results st))
           = truncateAtMarker (transcription st) @ finalizedText results
       \<and> fst (onresult now results st) = None
       \<and> transcription (snd (onresult_page results pst))
           = truncateAtMarker (transcription pst) @ finalizedText results
       \<and> fst (onresult_page results pst) = None
       \<and> transcription (snd (onresult now [] st)) = transcription st
       \<and> transcription (snd (onresult_page [] pst)) = transcription pst
       \<and> (indexOf prev tempMarker = Some i \<longrightarrow>
            truncateAtMarker prev = take i prev \<and> prefix tempMarker (drop i prev)
            \<and> (\<forall>j<i. \<not> prefix tempMarker (drop j prev)))
       \<and> (\<not> sublist tempMarker prev \<longrightarrow> truncateAtMarker prev = prev)"
  using onresult_loop_all_final [OF assms(2,3), of "[]" "[]"] finalizedText_nonempty [OF assms(1)]
    truncateAtMarker_first [of prev i]
  by (simp add: onresult_def onresult_page_def nextTranscription_def)

theorem onresult_all_final_witness:
  "transcription (snd (onresult 5 [segment True (ascii ''hi''), segment True (ascii ''yo'')]
       ((initialState 0)\<lparr>transcription := ascii ''x '' @ tempMarker @ ascii '' h''\<rparr>)))
     = ascii ''x hi yo ''"
  using onresult_all_final [of "[segment True (ascii ''hi''), segment True (ascii ''yo'')]" 5
      "(initialState 0)\<lparr>transcription := ascii ''x '' @ tempMarker @ ascii '' h''\<rparr>"
      "(initialState 0)\<lparr>transcription := ascii ''x '' @ tempMarker @ ascii '' h''\<rparr>"
      "ascii ''x '' @ tempMarker @ ascii '' h''" 2]
  by (simp add: segment_def finalizedText_def truncateAtMarker_def initialState_def
      tempMarker_def ascii_def)


section \<open>Properties of the error and end handlers\<close>

lemma onerror_timer:
  "snd (onerror r ev st) =
     (if isTransient (event_error ev) \<and> reconnectAttempts_r r < 5
      then Some \<lparr>delay = errorRetryDelay (reconnectAttempts_r r), callback = RetryStart,
                 armed = isRecording_r r\<rparr>
      else None)"
  by (simp add: onerror_def Let_def)

lemma onend_timer:
  "snd (onend r now st) =
     (if isRecording_r r \<and> now - lastActivity_r r < 30000 \<and> reconnectAttempts_r r < 5
      then Some \<lparr>delay = endRetryDelay (reconnectAttempts_r r), callback = RestartStart,
                 armed = isRecording_r r\<rparr>
      else None)"
  by (simp add: onend_def Let_def)

lemma errorRetryDelay_mono: "m \<le> n \<Longrightarrow> errorRetryDelay m \<le> errorRetryDelay n"
proof -
  assume "m \<le> n"
  then have "(2::nat) ^ m \<le> 2 ^ n" by (simp add: power_increasing)
  then have "1000 * (2::nat) ^ m \<le> 1000 * 2 ^ n" by simp
  then show ?thesis unfolding errorRetryDelay_def by (rule min.mono) simp
qed

lemma endRetryDelay_mono: "m \<le> n \<Longrightarrow> endRetryDelay m \<le> endRetryDelay n"
  unfolding endRetryDelay_def by (rule min.mono) simp_all

text \<open>With the handlers the page installs, no timer ever calls \<open>start()\<close>: the closures
  hold \<open>isRecording = false\<close>.\<close>

lemma step_mount_unarmed:
  "list_all (\<lambda>t. \<not> armed t) (timers s) \<Longrightarrow>
   list_all (\<lambda>t. \<not> armed t) (timers (step (\<lambda>_. mountRender t0) e s))
   \<and> starts (step (\<lambda>_. mountRender t0) e s) = starts s"
  by (cases e)
     (auto simp: onerror_def onend_def fire_def mountRender_def renderOf_def initialState_def
        Let_def split: list.splits prod.splits option.splits timer_callback.splits)

lemma run_mount_never_starts:
  "list_all (\<lambda>t. \<not> armed t) (timers s) \<Longrightarrow>
   starts (run (\<lambda>_. mountRender t0) es s) = starts s"
proof (induction es arbitrary: s)
  case Nil
  then show ?case by simp
next
  case (Cons e es)
  from step_mount_unarmed [OF Cons.prems, of t0 e] Cons.IH [of "step (\<lambda>_. mountRender t0) e s"]
  show ?case by simp
qed

text \<open>What the installed handlers do, whatever the state: the error handler schedules
  the same timer at every transient error, and the end handler only clears the
  listening flag.\<close>

lemma installed_onerror_timer:
  "snd (onerror (mountRender t0) ev st) =
     (if isTransient (event_error ev) then Some mountRetryTimer else None)"
  by (simp add: onerror_timer mountRender_def renderOf_def initialState_def
      mountRetryTimer_def errorRetryDelay_def)

lemma installed_onend:
  "onend (mountRender t0) now st = (st\<lparr>isListening := False\<rparr>, None)"
  by (simp add: onend_def mountRender_def renderOf_def initialState_def Let_def)

text \<open>
  Claim C2 (at most 5 consecutive automatic retries; once the attempt count has reached
  5 no retry is scheduled and the session is surfaced as stopped), at six transient
  errors in a row in a recording session, with the handlers the page installs. They
  read the attempt count of the mount render, 0, while the setter counts in the state:
  the state's count goes to 6, yet the sixth error still shows the retry message
  ``(1/5)'', schedules a sixth timer with delay 1000 and leaves the recording flag set.
  None of the six timers calls \<open>start()\<close>, and a session end after the six errors neither
  clears the recording flag nor changes the message.
\<close>

theorem six_network_errors_installed_handlers:
  "reconnectAttempts (app (run (\<lambda>_. mountRender 0) sixNetworkErrors (recordingSession 0))) = 6
   \<and> isRecording (app (run (\<lambda>_. mountRender 0) sixNetworkErrors (recordingSession 0)))
   \<and> error (app (run (\<lambda>_. mountRender 0) sixNetworkErrors (recordingSession 0)))
       = retryPrefix @ ascii ''1/5)''
   \<and> timers (run (\<lambda>_. mountRender 0) sixNetworkErrors (recordingSession 0))
       = [mountRetryTimer, mountRetryTimer, mountRetryTimer,
          mountRetryTimer, mountRetryTimer, mountRetryTimer]
   \<and> starts (run (\<lambda>_. mountRender 0)
        (sixNetworkErrors @ [Fire True, Fire True, Fire True, Fire True, Fire True, Fire True])
        (recordingSession 0)) = 0
   \<and> isRecording (app (run (\<lambda>_. mountRender 0) (sixNetworkErrors @ [End 1])
        (recordingSession 0)))
   \<and> error (app (run (\<lambda>_. mountRender 0) (sixNetworkErrors @ [End 1]) (recordingSession 0)))
       = retryPrefix @ ascii ''1/5)''"
  by (simp add: sixNetworkErrors_def mountRetryTimer_def onerror_def onend_def fire_def
      networkError_def recordingSession_def mountRender_def renderOf_def initialState_def
      isTransient_def errorRetryDelay_def ascii_def Let_def)

text \<open>
  Claim C4 (the delay scheduled after a transient error is \<open>min (1000 * 2 ^ n) 10000\<close>
  for the attempt count \<open>n\<close>, and \<open>min (500 + 200 * n) 2000\<close> after a session end), at two
  transient errors in a row in a recording session, with the handlers the page installs.
  At the second error the attempt count is 1, for which the formula gives 2000; the
  timer scheduled has the delay 1000, as at every count, and the installed end handler
  schedules no timer at all.
\<close>

theorem second_network_error_delay_1000:
  "reconnectAttempts (app (run (\<lambda>_. mountRender 0) [Error networkError] (recordingSession 0))) = 1
   \<and> timers (run (\<lambda>_. mountRender 0) [Error networkError, Error networkError]
        (recordingSession 0)) = [mountRetryTimer, mountRetryTimer]
   \<and> delay mountRetryTimer = 1000
   \<and> errorRetryDelay 1 = 2000
   \<and> map_option delay (snd (onerror (mountRender t0) networkError st)) = Some 1000
   \<and> snd (onend (mountRender t0) now st) = None"
  by (simp add: mountRetryTimer_def onerror_def onend_def networkError_def recordingSession_def
      mountRender_def renderOf_def initialState_def isTransient_def errorRetryDelay_def
      ascii_def Let_def)

text \<open>
  Claim C6: whatever the error event and whatever the handler reads, the error handler
  leaves a non-empty error message in the state, in both versions of the page.
\<close>

theorem onerror_sets_nonempty_message:
  "error (fst (onerror r ev st)) \<noteq> [] \<and> error (onerror_page ev pst) \<noteq> []"
  by (simp add: onerror_def onerror_page_def Let_def retryPrefix_def errPrefix_def)


section \<open>Properties of clearing\<close>

text \<open>
  Claim C7: \<open>clearAll\<close> empties the transcript, the summary, the keyword list and the
  error message and resets the attempt count to 0; the recording flag, the listening
  flag, the microphone level and the environment status stay as they are (as does the
  loading flag; the time of the last activity is set to the current time). The version
  of \<open>app/page.tsx\<close>, whose state has no keyword list and no attempt count, empties the
  transcript, the summary and the error message and changes nothing else.
\<close>

theorem clearAll_effect_and_frame:
  "transcription (clearAll now st) = [] \<and> summary (clearAll now st) = []
   \<and> keywords_st (clearAll now st) = [] \<and> error (clearAll now st) = []
   \<and> reconnectAttempts (clearAll now st) = 0
   \<and> isRecording (clearAll now st) = isRecording st
   \<and> isListening (clearAll now st) = isListening st
   \<and> micLevel (clearAll now st) = micLevel st
   \<and> environmentStatus (clearAll now st) = environmentStatus st
   \<and> isLoading (clearAll now st) = isLoading st
   \<and> lastActivity (clearAll now st) = now
   \<and> transcription (clearAll_page pst) = [] \<and> summary (clearAll_page pst) = []
   \<and> error (clearAll_page pst) = []
   \<and> isRecording (clearAll_page pst) = isRecording pst
   \<and> isListening (clearAll_page pst) = isListening pst
   \<and> micLevel (clearAll_page pst) = micLevel pst
   \<and> environmentStatus (clearAll_page pst) = environmentStatus pst
   \<and> isLoading (clearAll_page pst) = isLoading pst
   \<and> page_state.more (clearAll_page pst) = page_state.more pst"
  by (simp add: clearAll_def clearAll_page_def)


section \<open>Properties of text processing\<close>

text \<open>
  After the removal no provisional marker is left, and none can arise from the collapse
  of white space or from trimming; the collapsed text has single spaces only, and the
  trimmed text neither starts nor ends with white space.
\<close>

lemma marker_no_space: "list_all (\<lambda>c. \<not> isSpace c) tempMarker"
  by (simp add: tempMarker_def isSpace_def)

lemma removeProvisional_space_start:
  "s = [] \<or> isSpace (hd s) \<Longrightarrow>
   removeProvisional s = [] \<or> isSpace (hd (removeProvisional s))"
proof (cases s)
  case Nil
  then show ?thesis by simp
next
  case (Cons c cs)
  assume "s = [] \<or> isSpace (hd s)"
  with Cons have sp: "isSpace c" by simp
  have "\<not> prefix tempMarker (c # cs)"
  proof
    assume "prefix tempMarker (c # cs)"
    then have "c = 0x5B" by (simp add: tempMarker_def)
    with sp show False by (simp add: isSpace_def)
  qed
  with Cons sp show ?thesis by simp
qed

lemma dropWhile_nonspace_start:
  "dropWhile (\<lambda>x. \<not> isSpace x) s = [] \<or> isSpace (hd (dropWhile (\<lambda>x. \<not> isSpace x) s))"
  using hd_dropWhile [of "\<lambda>x. \<not> isSpace x" s] by auto

text \<open>The result starts with the part of the input before its first marker; what
  follows is empty or starts with white space.\<close>

lemma removeProvisional_shape:
  "\<exists>p r. removeProvisional s = p @ r \<and> prefix p s \<and> (r = [] \<or> isSpace (hd r))
        \<and> (p = s \<or> prefix tempMarker (drop (length p) s))"
proof (induction s rule: removeProvisional.induct)
  case 1
  show ?case by simp
next
  case (2 c cs)
  show ?case
  proof (cases "prefix tempMarker (c # cs)")
    case True
    let ?rest = "dropWhile (\<lambda>x. \<not> isSpace x) (drop (length tempMarker) (c # cs))"
    have "removeProvisional ?rest = [] \<or> isSpace (hd (removeProvisional ?rest))"
      by (rule removeProvisional_space_start) (rule dropWhile_nonspace_start)
    with True show ?thesis
      by (intro exI [of _ "[]"] exI [of _ "removeProvisional ?rest"]) simp
  next
    case False
    from 2(2) [OF False] obtain p r where pr: "removeProvisional cs = p @ r" "prefix p cs"
      "r = [] \<or> isSpace (hd r)" "p = cs \<or> prefix tempMarker (drop (length p) cs)"
      by blast
    with False show ?thesis
      by (intro exI [of _ "c # p"] exI [of _ r]) simp
  qed
qed

lemma prefix_marker_no_space_at:
  "prefix tempMarker (p @ r) \<Longrightarrow> length p < 4 \<Longrightarrow> r \<noteq> [] \<and> \<not> isSpace (hd r)"
proof -
  assume pre: "prefix tempMarker (p @ r)" and len: "length p < 4"
  then obtain z where z: "p @ r = tempMarker @ z" by (auto simp: prefix_def)
  have l4: "length tempMarker = 4" by (simp add: tempMarker_def)
  from z l4 len have "length r > 0" by (metis length_append add_lessD1 less_add_same_cancel1 not_less_iff_gr_or_eq trans_less_add1 length_greater_0_conv append_Nil2)
  then have rne: "r \<noteq> []" by simp
  have "(p @ r) ! length p = tempMarker ! length p"
    using z len l4 by (simp add: nth_append)
  then have "hd r = tempMarker ! length p"
    using rne by (simp add: nth_append hd_conv_nth)
  moreover have "\<not> isSpace (tempMarker ! length p)"
    using marker_no_space len l4 by (simp add: list_all_length)
  ultimately show ?thesis using rne by simp
qed

lemma removeProvisional_no_marker: "\<not> sublist tempMarker (removeProvisional s)"
proof (induction s rule: removeProvisional.induct)
  case 1
  show ?case by (simp add: tempMarker_def)
next
  case (2 c cs)
  show ?case
  proof (cases "prefix tempMarker (c # cs)")
    case True
    with 2(1) show ?thesis by simp
  next
    case False
    from removeProvisional_shape [of cs] obtain p r where pr: "removeProvisional cs = p @ r"
      "prefix p cs" "r = [] \<or> isSpace (hd r)" by blast
    have "\<not> prefix tempMarker (c # removeProvisional cs)"
    proof
      assume a: "prefix tempMarker (c # removeProvisional cs)"
      show False
      proof (cases "length (c # p) < 4")
        case True
        from a pr(1) have "prefix tempMarker ((c # p) @ r)" by simp
        from prefix_marker_no_space_at [OF this True] pr(3) show False by simp
      next
        case False
        then have "length tempMarker \<le> length (c # p)" by (simp add: tempMarker_def)
        with a pr(1) have "prefix tempMarker (c # p)"
          by (metis append_Cons prefix_length_prefix prefix_order.refl prefixI prefix_append)
        with pr(2) have "prefix tempMarker (c # cs)"
          by (meson Cons_prefix_Cons prefix_order.trans)
        with \<open>\<not> prefix tempMarker (c # cs)\<close> show False by simp
      qed
    qed
    with 2(2) [OF False] False show ?thesis by (simp add: sublist_Cons_right)
  qed
qed



lemma collapseSpaces_prefix:
  "list_all (\<lambda>c. \<not> isSpace c) m \<Longrightarrow> prefix m (collapseSpaces t) \<Longrightarrow> prefix m t"
proof (induction t arbitrary: m rule: collapseSpaces.induct)
  case 1
  then show ?case by simp
next
  case (2 c cs)
  show ?case
  proof (cases m)
    case Nil
    then show ?thesis by simp
  next
    case (Cons x m')
    with 2(3) have x: "\<not> isSpace x" and m': "list_all (\<lambda>c. \<not> isSpace c) m'" by simp_all
    have sp: "isSpace (0x20::code_unit)" by (simp add: isSpace_def)
    show ?thesis
    proof (cases "isSpace c")
      case True
      with 2(4) Cons have "x = 0x20" by simp
      with x sp show ?thesis by simp
    next
      case False
      with 2(4) Cons have "x = c" "prefix m' (collapseSpaces cs)" by simp_all
      with 2(2) [OF False m'] Cons show ?thesis by simp
    qed
  qed
qed

lemma collapseSpaces_sublist:
  "m \<noteq> [] \<Longrightarrow> list_all (\<lambda>c. \<not> isSpace c) m \<Longrightarrow> sublist m (collapseSpaces t) \<Longrightarrow> sublist m t"
proof (induction t rule: collapseSpaces.induct)
  case 1
  then show ?case by simp
next
  case (2 c cs)
  show ?case
  proof (cases "isSpace c")
    case True
    from 2(5) True have "prefix m (0x20 # collapseSpaces (dropWhile isSpace cs))
        \<or> sublist m (collapseSpaces (dropWhile isSpace cs))"
      by (simp add: sublist_Cons_right)
    then show ?thesis
    proof
      assume "prefix m (0x20 # collapseSpaces (dropWhile isSpace cs))"
      with True have "prefix m (collapseSpaces (c # cs))" by simp
      from collapseSpaces_prefix [OF 2(4) this] show ?thesis by (rule prefix_imp_sublist)
    next
      assume "sublist m (collapseSpaces (dropWhile isSpace cs))"
      from 2(1) [OF True 2(3) 2(4) this] have "sublist m (dropWhile isSpace cs)" .
      then have "sublist m cs" using sublist_dropWhile sublist_order.order.trans by blast
      then show ?thesis by (simp add: sublist_Cons_right)
    qed
  next
    case False
    from 2(5) False have "prefix m (collapseSpaces (c # cs)) \<or> sublist m (collapseSpaces cs)"
      by (simp add: sublist_Cons_right)
    then show ?thesis
    proof
      assume "prefix m (collapseSpaces (c # cs))"
      from collapseSpaces_prefix [OF 2(4) this] show ?thesis by (rule prefix_imp_sublist)
    next
      assume "sublist m (collapseSpaces cs)"
      from 2(2) [OF False 2(3) 2(4) this] show ?thesis by (simp add: sublist_Cons_right)
    qed
  qed
qed

lemma trim_sublist: "sublist (trim s) s"
proof -
  have "prefix (rev (dropWhile isSpace (rev (dropWhile isSpace s)))) (dropWhile isSpace s)"
    by (metis suffix_dropWhile suffix_to_prefix rev_rev_ident)
  then have "sublist (trim s) (dropWhile isSpace s)"
    unfolding trim_def by (rule prefix_imp_sublist)
  then show ?thesis using sublist_dropWhile sublist_order.order.trans by blast
qed

lemma processedText_no_marker: "\<not> includesStr (processedText t) tempMarker"
proof -
  have ne: "tempMarker \<noteq> []" by (simp add: tempMarker_def)
  have "\<not> sublist tempMarker (processedText t)"
  proof
    assume "sublist tempMarker (processedText t)"
    then have "sublist tempMarker (collapseSpaces (removeProvisional t))"
      unfolding processedText_def using trim_sublist sublist_order.order.trans by blast
    from collapseSpaces_sublist [OF ne marker_no_space this] removeProvisional_no_marker [of t]
    show False by simp
  qed
  then show ?thesis by (simp add: includesStr_def indexOf_None_iff)
qed







section \<open>Properties of keyword extraction\<close>

text \<open>The frequency table after the loop holds the count of every kept token, as long
  as no kept token names a member of \<open>Object.prototype\<close>.\<close>

lemma countWord_skip: "\<not> keepWord w \<Longrightarrow> countWord tbl w = tbl"
  by (auto simp: countWord_def keepWord_def)

lemma countWord_counts:
  assumes "counts tbl xs" "keepWord w" "\<not> namesPrototypeMember w"
  shows "counts (countWord tbl w) (xs @ [w])"
proof -
  from assms(1) have d: "distinct (map fst tbl)"
    and m: "map_of tbl = (\<lambda>k. if k \<in> set xs then Some (Count (count_list xs k)) else None)"
    by (simp_all add: counts_def)
  have v: "(case map_of tbl w of
              Some (Count n) \<Rightarrow> Count (n + 1)
            | Some NotANumber \<Rightarrow> NotANumber
            | None \<Rightarrow> if w \<in> set inheritedNames then NotANumber else Count 1)
           = Count (count_list xs w + 1)"
    using assms(3) by (simp add: m namesPrototypeMember_def)
  have eq: "countWord tbl w = AList.update w (Count (count_list xs w + 1)) tbl"
    using assms(2,3) v by (simp add: countWord_def keepWord_def namesPrototypeMember_def)
  have "distinct (map fst (countWord tbl w))"
    unfolding eq using d by (rule distinct_update)
  moreover have "map_of (countWord tbl w)
      = (\<lambda>k. if k \<in> set (xs @ [w]) then Some (Count (count_list (xs @ [w]) k)) else None)"
    unfolding eq update_conv' m by (rule ext) simp
  ultimately show ?thesis by (simp add: counts_def)
qed

lemma foldl_countWord_counts:
  "counts tbl xs \<Longrightarrow> \<forall>w\<in>set (filter keepWord ws). \<not> namesPrototypeMember w \<Longrightarrow>
   counts (foldl countWord tbl ws) (xs @ filter keepWord ws)"
proof (induction ws arbitrary: tbl xs)
  case Nil
  then show ?case by simp
next
  case (Cons w ws)
  show ?case
  proof (cases "keepWord w")
    case True
    with Cons.prems have "counts (countWord tbl w) (xs @ [w])"
      by (simp add: countWord_counts)
    from Cons.IH [OF this] Cons.prems(2) True show ?thesis by simp
  next
    case False
    with Cons.IH [OF Cons.prems(1)] Cons.prems(2) show ?thesis
      by (simp add: countWord_skip)
  qed
qed

lemma counts_empty: "counts [] []"
  by (simp add: counts_def)

lemma counts_keys: "counts tbl xs \<Longrightarrow> set (map fst tbl) = set xs"
proof -
  assume c: "counts tbl xs"
  have "fst ` set tbl = dom (map_of tbl)" by (simp add: dom_map_of_conv_image_fst)
  also have "\<dots> = set xs" using c by (auto simp: counts_def dom_def)
  finally show ?thesis by simp
qed

lemma counts_value: "counts tbl xs \<Longrightarrow> e \<in> set tbl \<Longrightarrow> snd e = Count (count_list xs (fst e))"
proof -
  assume c: "counts tbl xs" and e: "e \<in> set tbl"
  obtain k v where kv: "e = (k, v)" by (cases e)
  from c have d: "distinct (map fst tbl)"
    and m: "map_of tbl = (\<lambda>k. if k \<in> set xs then Some (Count (count_list xs k)) else None)"
    by (simp_all add: counts_def)
  from d e kv have "map_of tbl k = Some v" by simp
  then have "(if k \<in> set xs then Some (Count (count_list xs k)) else None) = Some v"
    by (simp add: m)
  then have "v = Count (count_list xs k)" by (simp split: if_splits)
  with kv show ?thesis by simp
qed

lemma mset_entries: "mset (entries obj) = mset obj"
  by (simp add: entries_def)

lemma sortByCount_numeric:
  "\<forall>e\<in>set es. snd e \<noteq> NotANumber \<Longrightarrow>
   sortByCount engineSort es = sort_key (\<lambda>e. - int (countOf (snd e))) es"
  by (simp add: sortByCount_def list_all_iff)


text \<open>
  For a text none of whose kept tokens names a member of \<open>Object.prototype\<close>, the
  keywords are distinct kept tokens (so none is a stop word or shorter than 2), there are
  \<open>min 8\<close> of the number of distinct kept tokens of them, they are in descending order of
  their number of occurrences, and no kept token left out occurs more often than one
  returned.
\<close>

lemma extractKeywords_characterisation:
  assumes "\<forall>w\<in>set (tokensOf text). \<not> namesPrototypeMember w"
  shows "distinct (extractKeywords engineSort text)
     \<and> set (extractKeywords engineSort text) \<subseteq> set (tokensOf text)
     \<and> length (extractKeywords engineSort text) = min 8 (card (set (tokensOf text)))
     \<and> sorted_wrt (\<lambda>a b. count_list (tokensOf text) b \<le> count_list (tokensOf text) a)
          (extractKeywords engineSort text)
     \<and> (\<forall>k\<in>set (extractKeywords engineSort text).
          \<forall>w\<in>set (tokensOf text) - set (extractKeywords engineSort text).
            count_list (tokensOf text) w \<le> count_list (tokensOf text) k)"
proof -
  define toks where "toks = tokensOf text"
  define tbl where "tbl = foldl countWord [] (splitRuns isSpace (cleanText text))"
  define ranked where "ranked = sort_key (\<lambda>e. - int (countOf (snd e))) (entries tbl)"
  define cnt where "cnt = count_list toks"
  have c: "counts tbl toks"
    using foldl_countWord_counts [OF counts_empty, of "splitRuns isSpace (cleanText text)"] assms
    by (simp add: tbl_def toks_def tokensOf_def)
  have ms: "mset ranked = mset tbl"
    by (simp add: ranked_def mset_entries)
  then have st: "set ranked = set tbl" by (rule mset_eq_setD)
  have num: "\<forall>e\<in>set (entries tbl). snd e \<noteq> NotANumber"
  proof
    fix e assume "e \<in> set (entries tbl)"
    then have "e \<in> set tbl" using mset_eq_setD [OF mset_entries] by blast
    from counts_value [OF c this] show "snd e \<noteq> NotANumber" by simp
  qed
  have "sortByCount engineSort (entries tbl) = ranked"
    by (simp add: sortByCount_numeric [OF num] ranked_def)
  then have res: "extractKeywords engineSort text = map fst (take 8 ranked)"
    by (simp add: extractKeywords_def Let_def tbl_def)
  have dk: "distinct (map fst ranked)"
  proof -
    have "mset (map fst ranked) = mset (map fst tbl)" using ms by (metis mset_map)
    moreover have "distinct (map fst tbl)" using c by (simp add: counts_def)
    ultimately show ?thesis by (metis mset_eq_imp_distinct_iff)
  qed
  have keys: "set (map fst ranked) = set toks"
    using counts_keys [OF c] st by simp
  have len: "length ranked = card (set toks)"
  proof -
    have "card (set (map fst ranked)) = length (map fst ranked)" using dk by (rule distinct_card)
    then show ?thesis using keys by simp
  qed
  have val: "\<And>e. e \<in> set ranked \<Longrightarrow> countOf (snd e) = cnt (fst e)"
    using counts_value [OF c] st by (simp add: cnt_def)
  have "sorted (map (\<lambda>e. - int (countOf (snd e))) ranked)"
    unfolding ranked_def by (rule sorted_sort_key)
  then have "sorted_wrt (\<lambda>a b. countOf (snd b) \<le> countOf (snd a)) ranked"
    by (simp add: sorted_map)
  then have "sorted_wrt (\<lambda>a b. cnt (fst b) \<le> cnt (fst a)) ranked"
    by (rule sorted_wrt_mono_rel [rotated]) (simp add: val)
  then have srt: "sorted_wrt (\<lambda>a b. cnt b \<le> cnt a) (map fst ranked)"
    by (simp add: sorted_wrt_map)
  have split: "map fst ranked = map fst (take 8 ranked) @ map fst (drop 8 ranked)"
    by (metis append_take_drop_id map_append)
  have p1: "distinct (map fst (take 8 ranked))"
    using dk by (simp add: take_map [symmetric] distinct_take)
  have p2: "set (map fst (take 8 ranked)) \<subseteq> set toks"
    using keys split by (metis Un_upper1 set_append)
  have p3: "length (map fst (take 8 ranked)) = min 8 (card (set toks))"
    using len by (simp add: min.commute)
  have both: "sorted_wrt (\<lambda>a b. cnt b \<le> cnt a) (map fst (take 8 ranked) @ map fst (drop 8 ranked))"
    using srt split by simp
  then have p4: "sorted_wrt (\<lambda>a b. cnt b \<le> cnt a) (map fst (take 8 ranked))"
    by (simp add: sorted_wrt_append)
  have p5: "\<forall>k\<in>set (map fst (take 8 ranked)). \<forall>w\<in>set toks - set (map fst (take 8 ranked)). cnt w \<le> cnt k"
  proof (intro ballI)
    fix k w
    assume k: "k \<in> set (map fst (take 8 ranked))"
      and w: "w \<in> set toks - set (map fst (take 8 ranked))"
    from w keys split have "w \<in> set (map fst (drop 8 ranked))"
      by (metis DiffD1 DiffD2 UnE set_append)
    with both k show "cnt w \<le> cnt k" by (auto simp: sorted_wrt_append)
  qed
  from p1 p2 p3 p4 p5 show ?thesis
    unfolding res cnt_def toks_def by (intro conjI)
qed

text \<open>The two example inputs, evaluated step by step.\<close>

lemma cleanText_protoText: "cleanText protoText = protoText"
  by (simp add: protoText_def cleanText_def ascii_def isSpace_def isWordChar_def isHangul_def
      trim_def tempMarker_def)

lemma words_protoText:
  "splitRuns isSpace protoText = [ascii ''__proto__'', ascii ''__proto__'', ascii ''ab'']"
  by (simp add: protoText_def ascii_def isSpace_def)

lemma wordFreq_protoText:
  "foldl countWord [] [ascii ''__proto__'', ascii ''__proto__'', ascii ''ab'']
     = [(ascii ''ab'', Count 1)]"
  by (simp add: countWord_def ascii_def stopWords_def inheritedNames_def)

lemma entries_single: "entries [(ascii ''ab'', Count 1)] = [(ascii ''ab'', Count 1)]"
  by (simp add: entries_def isArrayIndex_def isDigit_def ascii_def)

lemma cleanText_constructorText: "cleanText constructorText = constructorText"
  by (simp add: constructorText_def cleanText_def ascii_def isSpace_def isWordChar_def
      isHangul_def trim_def tempMarker_def)

lemma words_constructorText:
  "splitRuns isSpace constructorText = [ascii ''constructor'', [0xD568, 0xC218], [0xD568, 0xC218]]"
  by (simp add: constructorText_def ascii_def isSpace_def)

lemma wordFreq_constructorText:
  "foldl countWord [] [ascii ''constructor'', [0xD568, 0xC218], [0xD568, 0xC218]]
     = [(ascii ''constructor'', NotANumber), ([0xD568, 0xC218], Count 2)]"
  by (simp add: countWord_def ascii_def stopWords_def inheritedNames_def)

lemma entries_constructorText:
  "entries [(ascii ''constructor'', NotANumber), ([0xD568, 0xC218], Count 2)]
     = [(ascii ''constructor'', NotANumber), ([0xD568, 0xC218], Count 2)]"
  by (simp add: entries_def isArrayIndex_def isDigit_def ascii_def)

text \<open>
  Claim C3 (for every input the keywords are the most frequent kept tokens, by
  descending count), at two inputs. In \<open>protoText\<close> the kept tokens are \<open>__proto__\<close>,
  twice, and \<open>ab\<close>; the result is \<open>ab\<close> alone, since the assignment to
  \<open>wordFreq["__proto__"]\<close> creates no property. In \<open>constructorText\<close> the entry of
  \<open>constructor\<close> holds a string, not its count 1: the comparison function returns
  \<open>NaN\<close> and the order of the two keywords is whatever the engine's sort makes of it.
\<close>

theorem extractKeywords_drops_proto_and_miscounts_constructor:
  "extractKeywords engineSort protoText = [ascii ''ab'']
   \<and> tokensOf protoText
       = [ascii ''__proto__'', ascii ''__proto__'', ascii ''ab'']
   \<and> foldl countWord [] (splitRuns isSpace (cleanText constructorText))
       = [(ascii ''constructor'', NotANumber), ([0xD568, 0xC218], Count 2)]
   \<and> extractKeywords engineSort constructorText
       = map fst (take 8 (engineSort [(ascii ''constructor'', NotANumber), ([0xD568, 0xC218], Count 2)]))"
proof -
  have a: "extractKeywords engineSort protoText = [ascii ''ab'']"
    unfolding extractKeywords_def Let_def cleanText_protoText words_protoText wordFreq_protoText
      entries_single
    by (simp add: sortByCount_def)
  have b: "tokensOf protoText
       = [ascii ''__proto__'', ascii ''__proto__'', ascii ''ab'']"
    unfolding tokensOf_def cleanText_protoText words_protoText
    by (simp add: keepWord_def ascii_def stopWords_def)
  have c: "foldl countWord [] (splitRuns isSpace (cleanText constructorText))
       = [(ascii ''constructor'', NotANumber), ([0xD568, 0xC218], Count 2)]"
    unfolding cleanText_constructorText words_constructorText by (rule wordFreq_constructorText)
  have d: "extractKeywords engineSort constructorText
       = map fst (take 8 (engineSort [(ascii ''constructor'', NotANumber), ([0xD568, 0xC218], Count 2)]))"
    unfolding extractKeywords_def Let_def c entries_constructorText
    by (simp add: sortByCount_def)
  from a b c d show ?thesis by (intro conjI)
qed




section \<open>Properties of summarizing\<close>

lemma trim_empty_iff: "trim s = [] \<longleftrightarrow> list_all isSpace s"
proof
  assume "trim s = []"
  then have a: "\<forall>x\<in>set (dropWhile isSpace s). isSpace x"
    by (simp add: trim_def dropWhile_eq_Nil_conv)
  have "dropWhile isSpace s = []"
  proof (rule ccontr)
    assume n: "dropWhile isSpace s \<noteq> []"
    then have "\<not> isSpace (hd (dropWhile isSpace s))" by (rule hd_dropWhile)
    with a n show False by (metis list.set_sel(1))
  qed
  then show "list_all isSpace s" by (simp add: dropWhile_eq_Nil_conv list_all_iff)
next
  assume "list_all isSpace s"
  then show "trim s = []"
    by (auto simp: trim_def list_all_iff dest: set_dropWhileD)
qed

lemma guard_messages_nonempty: "noTextMsg \<noteq> []" "notLoadedMsg \<noteq> []"
  by (simp_all add: noTextMsg_def notLoadedMsg_def)




text \<open>
  Claim C8: when the transcript is empty or all white space, or the pipeline has not
  loaded, \<open>summarizeText\<close> gives the pipeline no input, sets a non-empty error message
  and changes nothing else: the summary, the keyword list and the transcript are as
  before. The same holds for the version of \<open>app/page.tsx\<close>.
\<close>

theorem summarizeText_guards_leave_state:
  "(transcription st = [] \<or> list_all isSpace (transcription st) \<or> summarizerRef = None \<longrightarrow>
      fst (summarizeText engineSort score summarizerRef st) = []
      \<and> error (snd (summarizeText engineSort score summarizerRef st)) \<noteq> []
      \<and> snd (summarizeText engineSort score summarizerRef st)
          = st\<lparr>error := error (snd (summarizeText engineSort score summarizerRef st))\<rparr>
      \<and> summary (snd (summarizeText engineSort score summarizerRef st)) = summary st
      \<and> keywords_st (snd (summarizeText engineSort score summarizerRef st)) = keywords_st st
      \<and> transcription (snd (summarizeText engineSort score summarizerRef st)) = transcription st)
   \<and> (transcription pst = [] \<or> list_all isSpace (transcription pst) \<or> summarizerRef = None \<longrightarrow>
      fst (summarizeText_page summarizerRef pst) = []
      \<and> error (snd (summarizeText_page summarizerRef pst)) \<noteq> []
      \<and> snd (summarizeText_page summarizerRef pst)
          = pst\<lparr>error := error (snd (summarizeText_page summarizerRef pst))\<rparr>
      \<and> summary (snd (summarizeText_page summarizerRef pst)) = summary pst
      \<and> transcription (snd (summarizeText_page summarizerRef pst)) = transcription pst)"
proof -
  have e: "list_all isSpace ([]::jsstring)" by simp
  show ?thesis
    using e guard_messages_nonempty
    by (auto simp: summarizeText_def summarizeText_page_def trim_empty_iff split: option.splits)
qed

theorem summarizeText_guards_witness:
  "list_all isSpace (transcription blankState)
   \<and> fst (summarizeText id exactScore (Some failingModel) blankState) = []
   \<and> error (snd (summarizeText id exactScore (Some failingModel) blankState)) \<noteq> []
   \<and> summary (snd (summarizeText id exactScore (Some failingModel) blankState)) = []
   \<and> fst (summarizeText_page None spacedState) = []
   \<and> error (snd (summarizeText_page None spacedState)) \<noteq> []
   \<and> transcription (snd (summarizeText_page None spacedState)) = ascii ''a  b''"
  using summarizeText_guards_leave_state [of blankState "Some failingModel" id exactScore blankState]
    summarizeText_guards_leave_state [of spacedState None id exactScore spacedState]
  by (simp add: blankState_def spacedState_def initialState_def isSpace_def ascii_def)







section \<open>Properties of the extractive summary\<close>

lemma selectionSize_ceiling: "selectionSize n = max 2 (nat \<lceil>0.4 * real n\<rceil>)"
proof -
  have "\<lceil>0.4 * real n\<rceil> = (2 * int n + 4) div 5"
  proof (rule ceiling_unique)
    have "5 * ((2 * int n + 4) div 5) \<le> 2 * int n + 4" by simp
    then have "5 * real_of_int ((2 * int n + 4) div 5) \<le> 2 * real n + 4"
      by (metis (mono_tags) of_int_le_iff of_int_mult of_int_add of_int_numeral of_int_of_nat_eq)
    then show "real_of_int ((2 * int n + 4) div 5) - 1 < 0.4 * real n" by simp
    have "2 * int n + 4 < 5 * ((2 * int n + 4) div 5) + 5" by presburger
    then have "2 * int n \<le> 5 * ((2 * int n + 4) div 5)" by simp
    then have "2 * real n \<le> 5 * real_of_int ((2 * int n + 4) div 5)"
      by (metis (mono_tags) of_int_le_iff of_int_mult of_int_numeral of_int_of_nat_eq)
    then show "0.4 * real n \<le> real_of_int ((2 * int n + 4) div 5)" by simp
  qed
  then have "nat \<lceil>0.4 * real n\<rceil> = (2 * n + 4) div 5"
    by (simp add: nat_div_distrib nat_add_distrib nat_mult_distrib)
  then show ?thesis by (simp add: selectionSize_def)
qed

lemma selectionSize_le: "3 < n \<Longrightarrow> selectionSize n \<le> n"
  by (simp add: selectionSize_def)

lemma ranked_sorted:
  "sorted_wrt (\<lambda>a b. snd b \<le> snd a) (sort_key (\<lambda>item. - snd item) (xs::('a \<times> real) list))"
proof -
  have "sorted (map (\<lambda>item. - snd item) (sort_key (\<lambda>item. - snd item) xs))"
    by (rule sorted_sort_key)
  then show ?thesis by (simp add: sorted_map)
qed

text \<open>The four-sentence example, evaluated step by step.\<close>

lemma sentencesOf_fourSentences:
  "sentencesOf fourSentences =
     [ascii ''aaaaaaaaaaaa bb'', ascii '' cccccccccccc bb'', ascii '' dddddddddddddd'',
      ascii '' eeeeeeeeeeee bb bb'']"
  by (simp add: fourSentences_def sentencesOf_def isTerminator_def trim_def isSpace_def ascii_def)

lemma cleanText_fourSentences:
  "cleanText fourSentences =
     ascii ''aaaaaaaaaaaa bb cccccccccccc bb dddddddddddddd eeeeeeeeeeee bb bb''"
  by (simp add: fourSentences_def cleanText_def ascii_def isSpace_def isWordChar_def
      isHangul_def trim_def tempMarker_def)

lemma words_fourSentences:
  "splitRuns isSpace (ascii ''aaaaaaaaaaaa bb cccccccccccc bb dddddddddddddd eeeeeeeeeeee bb bb'')
     = [ascii ''aaaaaaaaaaaa'', ascii ''bb'', ascii ''cccccccccccc'', ascii ''bb'',
        ascii ''dddddddddddddd'', ascii ''eeeeeeeeeeee'', ascii ''bb'', ascii ''bb'']"
  by (simp add: ascii_def isSpace_def)

lemma wordFreq_fourSentences:
  "foldl countWord []
     [ascii ''aaaaaaaaaaaa'', ascii ''bb'', ascii ''cccccccccccc'', ascii ''bb'',
      ascii ''dddddddddddddd'', ascii ''eeeeeeeeeeee'', ascii ''bb'', ascii ''bb'']
     = [(ascii ''aaaaaaaaaaaa'', Count 1), (ascii ''bb'', Count 4),
        (ascii ''cccccccccccc'', Count 1), (ascii ''dddddddddddddd'', Count 1),
        (ascii ''eeeeeeeeeeee'', Count 1)]"
  by (simp add: countWord_def ascii_def stopWords_def inheritedNames_def)

lemma entries_fourSentences:
  "entries [(ascii ''aaaaaaaaaaaa'', Count 1), (ascii ''bb'', Count 4),
        (ascii ''cccccccccccc'', Count 1), (ascii ''dddddddddddddd'', Count 1),
        (ascii ''eeeeeeeeeeee'', Count 1)]
     = [(ascii ''aaaaaaaaaaaa'', Count 1), (ascii ''bb'', Count 4),
        (ascii ''cccccccccccc'', Count 1), (ascii ''dddddddddddddd'', Count 1),
        (ascii ''eeeeeeeeeeee'', Count 1)]"
  by (simp add: entries_def isArrayIndex_def isDigit_def ascii_def)

lemma extractKeywords_fourSentences:
  "extractKeywords f fourSentences =
     [ascii ''bb'', ascii ''aaaaaaaaaaaa'', ascii ''cccccccccccc'', ascii ''dddddddddddddd'',
      ascii ''eeeeeeeeeeee'']"
  unfolding extractKeywords_def Let_def cleanText_fourSentences words_fourSentences
    wordFreq_fourSentences entries_fourSentences
  by (simp add: sortByCount_def)

lemma scoredSentences_fourSentences:
  "scoredSentences f exactScore fourSentences =
     [(ascii ''aaaaaaaaaaaa bb'', 2 + 15 / 100), (ascii ''cccccccccccc bb'', 2 + 16 / 100),
      (ascii ''dddddddddddddd'', 1 + 15 / 100), (ascii ''eeeeeeeeeeee bb bb'', 2 + 19 / 100)]"
  unfolding scoredSentences_def Let_def sentencesOf_fourSentences extractKeywords_fourSentences
  by (simp add: includesStr_def exactScore_def trim_def isSpace_def ascii_def)

lemma createExtractiveSummary_fourSentences:
  "createExtractiveSummary f exactScore fourSentences
     = ascii ''eeeeeeeeeeee bb bb. cccccccccccc bb.''"
  unfolding createExtractiveSummary_def Let_def sentencesOf_fourSentences
    scoredSentences_fourSentences
  by (simp add: selectionSize_def ascii_def)

text \<open>
  Claim C10: a text with at most three fragments (between runs of the terminators) of
  trimmed length above 10 is returned as it is. With \<open>n > 3\<close> such fragments the result
  is the trimmed fragments chosen, joined by a period and a space and ended by a
  period; the chosen ones are the first \<open>max 2 (ceiling (0.4 * n))\<close> of the fragments
  ranked by descending score, so there are at least 2 and at least \<open>ceiling (0.4 * n)\<close>
  of them, and none left out has a higher score than one chosen. This holds whatever
  the rounding of the scores and whatever order the engine gives the keywords.
\<close>

theorem createExtractiveSummary_identity_or_selection:
  "(length (sentencesOf text) \<le> 3 \<longrightarrow> createExtractiveSummary engineSort score text = text)
   \<and> (3 < length (sentencesOf text) \<longrightarrow>
       (let n = length (sentencesOf text);
            ranked = sort_key (\<lambda>item. - snd item) (scoredSentences engineSort score text);
            chosen = take (selectionSize n) ranked
        in createExtractiveSummary engineSort score text
             = join (ascii ''. '') (map fst chosen) @ ascii ''.''
           \<and> map fst (scoredSentences engineSort score text) = map trim (sentencesOf text)
           \<and> mset ranked = mset (scoredSentences engineSort score text)
           \<and> length chosen = selectionSize n
           \<and> selectionSize n = max 2 (nat \<lceil>0.4 * real n\<rceil>)
           \<and> 2 \<le> length chosen \<and> nat \<lceil>0.4 * real n\<rceil> \<le> length chosen \<and> length chosen \<le> n
           \<and> sorted_wrt (\<lambda>a b. snd b \<le> snd a) ranked
           \<and> (\<forall>a\<in>set chosen. \<forall>b\<in>set (drop (selectionSize n) ranked). snd b \<le> snd a)))"
proof (intro conjI impI)
  assume "length (sentencesOf text) \<le> 3"
  then show "createExtractiveSummary engineSort score text = text"
    by (simp add: createExtractiveSummary_def)
next
  assume big: "3 < length (sentencesOf text)"
  define n where "n = length (sentencesOf text)"
  define scored where "scored = scoredSentences engineSort score text"
  define ranked where "ranked = sort_key (\<lambda>item. - snd item) scored"
  define chosen where "chosen = take (selectionSize n) ranked"
  have len_scored: "length scored = n"
    by (simp add: scored_def scoredSentences_def n_def)
  have len_ranked: "length ranked = n"
    by (simp add: ranked_def len_scored)
  have m_le: "selectionSize n \<le> n"
    using big by (simp add: selectionSize_le n_def)
  have len_chosen: "length chosen = selectionSize n"
    using m_le by (simp add: chosen_def len_ranked)
  have srt: "sorted_wrt (\<lambda>a b. snd b \<le> snd a) ranked"
    unfolding ranked_def by (rule ranked_sorted)
  have "sorted_wrt (\<lambda>a b. snd b \<le> snd a)
          (take (selectionSize n) ranked @ drop (selectionSize n) ranked)"
    using srt by simp
  then have top: "\<forall>a\<in>set chosen. \<forall>b\<in>set (drop (selectionSize n) ranked). snd b \<le> snd a"
    unfolding sorted_wrt_append chosen_def by blast
  have sz: "selectionSize n = max 2 (nat \<lceil>0.4 * real n\<rceil>)"
    by (rule selectionSize_ceiling)
  have res: "createExtractiveSummary engineSort score text
      = join (ascii ''. '') (map fst chosen) @ ascii ''.''"
    using big by (simp add: createExtractiveSummary_def chosen_def ranked_def scored_def n_def)
  have fsts: "map fst scored = map trim (sentencesOf text)"
    by (simp add: scored_def scoredSentences_def comp_def)
  have ms: "mset ranked = mset scored"
    by (simp add: ranked_def)
  have two: "2 \<le> length chosen" "nat \<lceil>0.4 * real n\<rceil> \<le> length chosen"
    using sz len_chosen by simp_all
  have le: "length chosen \<le> n"
    using len_chosen m_le by simp
  show "let n = length (sentencesOf text);
            ranked = sort_key (\<lambda>item. - snd item) (scoredSentences engineSort score text);
            chosen = take (selectionSize n) ranked
        in createExtractiveSummary engineSort score text
             = join (ascii ''. '') (map fst chosen) @ ascii ''.''
           \<and> map fst (scoredSentences engineSort score text) = map trim (sentencesOf text)
           \<and> mset ranked = mset (scoredSentences engineSort score text)
           \<and> length chosen = selectionSize n
           \<and> selectionSize n = max 2 (nat \<lceil>0.4 * real n\<rceil>)
           \<and> 2 \<le> length chosen \<and> nat \<lceil>0.4 * real n\<rceil> \<le> length chosen \<and> length chosen \<le> n
           \<and> sorted_wrt (\<lambda>a b. snd b \<le> snd a) ranked
           \<and> (\<forall>a\<in>set chosen. \<forall>b\<in>set (drop (selectionSize n) ranked). snd b \<le> snd a)"
    unfolding Let_def
    using res fsts ms len_chosen sz two le srt top
    unfolding chosen_def ranked_def scored_def n_def
    by (intro conjI) assumption+
qed

theorem createExtractiveSummary_witness:
  "3 < length (sentencesOf fourSentences)
   \<and> createExtractiveSummary id exactScore fourSentences
       = ascii ''eeeeeeeeeeee bb bb. cccccccccccc bb.''
   \<and> length (take (selectionSize (length (sentencesOf fourSentences)))
        (sort_key (\<lambda>item. - snd item) (scoredSentences id exactScore fourSentences))) = 2
   \<and> length (sentencesOf (ascii ''hello world. bye'')) \<le> 3
   \<and> createExtractiveSummary id exactScore (ascii ''hello world. bye'') = ascii ''hello world. bye''"
proof -
  have a: "3 < length (sentencesOf fourSentences)"
    by (simp add: sentencesOf_fourSentences)
  have b: "length (sentencesOf (ascii ''hello world. bye'')) \<le> 3"
    by (simp add: sentencesOf_def isTerminator_def trim_def isSpace_def ascii_def)
  from a createExtractiveSummary_identity_or_selection [of fourSentences id exactScore]
  have c: "length (take (selectionSize (length (sentencesOf fourSentences)))
        (sort_key (\<lambda>item. - snd item) (scoredSentences id exactScore fourSentences)))
        = selectionSize (length (sentencesOf fourSentences))"
    unfolding Let_def by blast
  have d: "selectionSize (length (sentencesOf fourSentences)) = 2"
    by (simp add: sentencesOf_fourSentences selectionSize_def)
  from b createExtractiveSummary_identity_or_selection [of "ascii ''hello world. bye''" id exactScore]
  have e: "createExtractiveSummary id exactScore (ascii ''hello world. bye'') = ascii ''hello world. bye''"
    by blast
  from c d have f: "length (take (selectionSize (length (sentencesOf fourSentences)))
        (sort_key (\<lambda>item. - snd item) (scoredSentences id exactScore fourSentences))) = 2"
    by (rule trans)
  show ?thesis
    using a b f e createExtractiveSummary_fourSentences [of id] by (intro conjI)
qed

end
